theory Spec2Isabelle
  imports Complex_Main
begin

section \<open>The environment of the scheduler\<close>

text \<open>
  The scripts run against the Netscript object \<open>ns\<close> of the game and the clock
  \<open>performance.now()\<close>. The game is not part of the repository: it is a state of an
  arbitrary type \<open>'w\<close> together with the functions the scripts call on it. Queries
  read the state; \<open>exec\<close>, \<open>sleep\<close> and a reading of the clock return the state
  that follows (time passes between two readings of the clock). JavaScript numbers
  are modelled exactly: RAM, money, security and time as \<open>real\<close>, thread and slot
  counts as \<open>int\<close>, process ids as \<open>nat\<close> (\<open>0\<close> is the failed launch).
\<close>

type_synonym host = string

text \<open>The exceptions of the scripts, each with its message.\<close>

datatype js_error = Error string | RangeError string

record 'w NS =
  serverExists :: "'w \<Rightarrow> host \<Rightarrow> bool"
  getServerMinSecurityLevel :: "'w \<Rightarrow> host \<Rightarrow> real"
  getServerSecurityLevel :: "'w \<Rightarrow> host \<Rightarrow> real"
  getServerMaxMoney :: "'w \<Rightarrow> host \<Rightarrow> real"
  getServerMoneyAvailable :: "'w \<Rightarrow> host \<Rightarrow> real"
  scan :: "'w \<Rightarrow> host \<Rightarrow> host list"
  hasRootAccess :: "'w \<Rightarrow> host \<Rightarrow> bool"
  getServerMaxRam :: "'w \<Rightarrow> host \<Rightarrow> real"
  getServerUsedRam :: "'w \<Rightarrow> host \<Rightarrow> real"
  getHackTime :: "'w \<Rightarrow> host \<Rightarrow> real"
  getRunningScript :: "'w \<Rightarrow> nat \<Rightarrow> bool"
  exec :: "'w \<Rightarrow> string \<Rightarrow> host \<Rightarrow> int \<Rightarrow> host \<Rightarrow> real \<Rightarrow> real \<Rightarrow> nat \<times> 'w"
  sleep :: "'w \<Rightarrow> real \<Rightarrow> 'w"
  performance_now :: "'w \<Rightarrow> real \<times> 'w"

section \<open>Helpers of the library file: crawler and waitWithProgress\<close>

text \<open>
  \<open>crawler\<close>: the heap is a stack (\<open>pop\<close> takes the last entry, \<open>push\<close> appends),
  \<open>visited\<close> is a Set, read at the end in insertion order. The loop ends when the
  heap is empty; on a network that never stops answering with new names it does not
  return, which is the value \<open>None\<close>.
\<close>

partial_function (option) crawlLoop ::
  "(host \<Rightarrow> host list) \<Rightarrow> host list \<Rightarrow> host list \<Rightarrow> host list option" where
  "crawlLoop neighbors heap visited =
     (if heap = [] then Some visited
      else if last heap \<notin> set visited
        then crawlLoop neighbors (butlast heap @ neighbors (last heap)) (visited @ [last heap])
        else crawlLoop neighbors (butlast heap) visited)"

declare crawlLoop.simps [code]

definition crawler :: "'w NS \<Rightarrow> 'w \<Rightarrow> host list option" where
  "crawler ns w = crawlLoop (scan ns w) [''home''] []"

text \<open>The remainder \<open>x % m\<close> of JavaScript, for \<open>x \<ge> 0\<close> and \<open>m > 0\<close>.\<close>

definition jsRemainder :: "real \<Rightarrow> real \<Rightarrow> real" where
  "jsRemainder x m = x - m * of_int \<lfloor>x / m\<rfloor>"

definition updateInterval :: real where
  "updateInterval = 200"

text \<open>
  \<open>waitWithProgress\<close>: the target time is computed first, then the loop sleeps until
  the clock reaches it. Each round reads the clock three times (loop test, remaining
  time for the bar, sleep length). Drawing the bar (\<open>clearLog\<close>, \<open>print\<close>) is left out.
  Where the clock never reaches the target the loop does not return (\<open>None\<close>).
\<close>

partial_function (option) waitLoop :: "'w NS \<Rightarrow> real \<Rightarrow> 'w \<Rightarrow> 'w option" where
  "waitLoop ns endTime w =
     (case performance_now ns w of (t1, w1) \<Rightarrow>
        if t1 < endTime then
          (case performance_now ns w1 of (t2, w2) \<Rightarrow>
           case performance_now ns w2 of (t3, w3) \<Rightarrow>
             waitLoop ns endTime (sleep ns w3 (jsRemainder (max 0 (endTime - t3)) updateInterval)))
        else Some w1)"

declare waitLoop.simps [code]

definition waitWithProgress :: "'w NS \<Rightarrow> 'w \<Rightarrow> real \<Rightarrow> 'w option" where
  "waitWithProgress ns w milliseconds =
     (case performance_now ns w of (t0, w0) \<Rightarrow> waitLoop ns (t0 + milliseconds) w0)"

section \<open>optimizeServer\<close>

record proc =
  pid :: nat
  threads :: int

text \<open>What the routine does to the outside, in order: the waits it starts and the lines it prints.\<close>

datatype event =
  Waited real string
  | Printed string nat int int real real real

record 'w opt_state =
  world :: 'w
  events :: "event list"
  minSec :: real
  actualSec :: real
  maxMoney :: real
  actualMoney :: real
  secDiff :: real
  moneyDiff :: real
  pidWeaken :: "proc list"
  pidGrow :: "proc list"
  etaWeaken :: real
  etaGrow :: real
  growBatchNumber :: nat

definition SCRIPT_RAM_COST :: real where
  "SCRIPT_RAM_COST = 1.75"

definition WEAKEN_TIME_MULTIPLIER :: real where
  "WEAKEN_TIME_MULTIPLIER = 4"

definition GROW_TIME_MULTIPLIER :: real where
  "GROW_TIME_MULTIPLIER = 3.2"

definition TIMING_BUFFER_MS :: real where
  "TIMING_BUFFER_MS = 20"

text \<open>\<open>Math.floor((maxRam - usedRam) / SCRIPT_RAM_COST)\<close>, of lines 380 and 498.\<close>

definition freeSlotsOf :: "'w NS \<Rightarrow> 'w \<Rightarrow> host \<Rightarrow> int" where
  "freeSlotsOf ns w server =
     \<lfloor>(getServerMaxRam ns w server - getServerUsedRam ns w server) / SCRIPT_RAM_COST\<rfloor>"

text \<open>
  \<open>executeOnBot\<close> (lines 497-508): returns the threads still to start; the process
  list it appends to and the game state are returned with it.
\<close>

definition executeOnBot ::
  "'w NS \<Rightarrow> host \<Rightarrow> string \<Rightarrow> host \<Rightarrow> real \<Rightarrow> real \<Rightarrow> int \<times> proc list \<times> 'w \<Rightarrow> int \<times> proc list \<times> 'w" where
  "executeOnBot ns bot' scriptPath target duration eta st =
     (case st of (thr, pidArray, w) \<Rightarrow>
        let slots = freeSlotsOf ns w bot' in
        if slots \<le> 0 then (thr, pidArray, w)
        else
          let threadsForServer = min thr slots in
          case exec ns w scriptPath bot' threadsForServer target duration eta of (p, w') \<Rightarrow>
            if p > 0 then (thr - threadsForServer, pidArray @ [\<lparr>pid = p, threads = threadsForServer\<rparr>], w')
            else (thr, pidArray, w'))"

text \<open>
  The grow pass (lines 421-425): \<open>for (const bot of botnet)\<close>, left as soon as no thread
  remains. The state is \<open>(remainingThreads, pidArray, world)\<close>.
\<close>

fun allocForward ::
  "'w NS \<Rightarrow> string \<Rightarrow> host \<Rightarrow> real \<Rightarrow> real \<Rightarrow> host list \<Rightarrow> int \<times> proc list \<times> 'w \<Rightarrow> int \<times> proc list \<times> 'w" where
  "allocForward ns scriptPath target duration eta [] st = st"
| "allocForward ns scriptPath target duration eta (bot' # rest) st =
     (if fst st \<le> 0 then st
      else allocForward ns scriptPath target duration eta rest
             (executeOnBot ns bot' scriptPath target duration eta st))"

text \<open>
  The weaken pass (lines 431-435): \<open>for (let i = botnet.length - 1; i >= 0; i--)\<close>. The
  counter \<open>k\<close> is \<open>i + 1\<close>; the pass starts at \<open>k = length botnet\<close>.
\<close>

fun allocBackward ::
  "'w NS \<Rightarrow> string \<Rightarrow> host \<Rightarrow> real \<Rightarrow> real \<Rightarrow> host list \<Rightarrow> nat \<Rightarrow> int \<times> proc list \<times> 'w \<Rightarrow> int \<times> proc list \<times> 'w" where
  "allocBackward ns scriptPath target duration eta botnet 0 st = st"
| "allocBackward ns scriptPath target duration eta botnet (Suc i) st =
     (if fst st \<le> 0 then st
      else allocBackward ns scriptPath target duration eta botnet i
             (executeOnBot ns (botnet ! i) scriptPath target duration eta st))"

text \<open>
  Lines 376-377: the rooted servers, sorted with the comparator
  \<open>getServerMaxRam(b) - getServerMaxRam(a)\<close>. \<open>Array.prototype.sort\<close> is stable, as
  the insertion sort \<open>sort_key\<close> is.
\<close>

definition botnetOf :: "'w NS \<Rightarrow> 'w \<Rightarrow> host list \<Rightarrow> host list" where
  "botnetOf ns w servers =
     sort_key (\<lambda>server. - getServerMaxRam ns w server) (filter (hasRootAccess ns w) servers)"

definition countFreeSlots :: "'w NS \<Rightarrow> 'w \<Rightarrow> host list \<Rightarrow> int" where
  "countFreeSlots ns w botnet = foldl (\<lambda>acc server. acc + freeSlotsOf ns w server) 0 botnet"

definition runningThreads :: "'w NS \<Rightarrow> 'w \<Rightarrow> proc list \<Rightarrow> int" where
  "runningThreads ns w pids =
     foldl (\<lambda>acc batch. acc + (if getRunningScript ns w (pid batch) then threads batch else 0)) 0 pids"

text \<open>\<open>Math.ceil(x / 100) * 100\<close>, the rounding of lines 397 and 406.\<close>

definition roundUp100 :: "real \<Rightarrow> real" where
  "roundUp100 x = of_int \<lceil>x / 100\<rceil> * 100"

text \<open>Lines 395-397 and 404-406: the new ETA of a wave, from the clock reading \<open>now\<close>.\<close>

definition newEtaWeaken :: "real \<Rightarrow> real \<Rightarrow> real" where
  "newEtaWeaken now hackTime =
     (let v = now + hackTime * WEAKEN_TIME_MULTIPLIER + TIMING_BUFFER_MS * 2
      in roundUp100 (v + TIMING_BUFFER_MS))"

definition newEtaGrow :: "real \<Rightarrow> real \<Rightarrow> real" where
  "newEtaGrow now hackTime =
     (let v = now + hackTime * GROW_TIME_MULTIPLIER + TIMING_BUFFER_MS * 3
      in roundUp100 (v + TIMING_BUFFER_MS))"

text \<open>Lines 411-412: \<open>(weakThreads, growThreads)\<close>.\<close>

definition threadSplit :: "int \<Rightarrow> int \<times> int" where
  "threadSplit maxSlots =
     (let weakThreads = \<lceil>real_of_int maxSlots / 10\<rceil>;
          growThreads = maxSlots - weakThreads
      in (weakThreads, growThreads))"

text \<open>\<open>getWaitTime\<close> (lines 480-483), with the state after the reading of the clock.\<close>

definition getWaitTime :: "'w NS \<Rightarrow> 'w \<Rightarrow> real \<Rightarrow> real \<times> 'w" where
  "getWaitTime ns w eta =
     (case performance_now ns w of (t, w') \<Rightarrow> (max (eta - t) 0, w'))"

text \<open>Lines 420-426: a new grow wave.\<close>

definition startGrows ::
  "'w NS \<Rightarrow> host \<Rightarrow> host list \<Rightarrow> real \<Rightarrow> int \<Rightarrow> 'w opt_state \<Rightarrow> 'w opt_state" where
  "startGrows ns target botnet hackTime growThreads st =
     (case allocForward ns ''src/bin.grow.js'' target (hackTime * GROW_TIME_MULTIPLIER)
             (etaGrow st - TIMING_BUFFER_MS * 3) botnet (growThreads, pidGrow st, world st)
      of (remainingThreads, pids, w1) \<Rightarrow>
        case getWaitTime ns w1 (etaGrow st) of (waitTime, w2) \<Rightarrow>
          st\<lparr>world := w2, pidGrow := pids, growBatchNumber := growBatchNumber st + 1,
             events := events st @
               [Printed ''grows'' (growBatchNumber st + 1) growThreads remainingThreads
                  (waitTime / 1000) (secDiff st) (moneyDiff st)]\<rparr>)"

text \<open>Lines 431-436: a new weaken wave.\<close>

definition startWeakens ::
  "'w NS \<Rightarrow> host \<Rightarrow> host list \<Rightarrow> real \<Rightarrow> int \<Rightarrow> 'w opt_state \<Rightarrow> 'w opt_state" where
  "startWeakens ns target botnet hackTime weakThreads st =
     (case allocBackward ns ''src/bin.weaken.js'' target (hackTime * WEAKEN_TIME_MULTIPLIER)
             (etaWeaken st - TIMING_BUFFER_MS * 2) botnet (length botnet)
             (weakThreads, pidWeaken st, world st)
      of (remainingThreads, pids, w1) \<Rightarrow>
        case getWaitTime ns w1 (etaWeaken st) of (waitTime, w2) \<Rightarrow>
          st\<lparr>world := w2, pidWeaken := pids,
             events := events st @
               [Printed ''weaken'' (growBatchNumber st) weakThreads remainingThreads
                  (waitTime / 1000) (secDiff st) (moneyDiff st)]\<rparr>)"

text \<open>
  Lines 376-437, one pass of the loop up to the test of \<open>forceRun\<close>: scan, ETAs,
  thread split, grow wave, weaken wave. It returns nothing where the crawler does not.
\<close>

definition dispatchStep :: "'w NS \<Rightarrow> host \<Rightarrow> 'w opt_state \<Rightarrow> 'w opt_state option" where
  "dispatchStep ns target st =
     (case crawler ns (world st) of
        None \<Rightarrow> None
      | Some servers \<Rightarrow>
          let w = world st;
              botnet = botnetOf ns w servers;
              freeSlots = countFreeSlots ns w botnet;
              hackTime = getHackTime ns w target;
              runGrows = runningThreads ns w (pidGrow st);
              runWeaken = runningThreads ns w (pidWeaken st);
              (maxSlots1, st1) =
                (if runWeaken > 0 then (freeSlots + runWeaken, st)
                 else case performance_now ns w of (t, w') \<Rightarrow>
                   (freeSlots, st\<lparr>world := w', etaWeaken := newEtaWeaken t hackTime, pidWeaken := []\<rparr>));
              (maxSlots, st2) =
                (if runGrows > 0 then (maxSlots1 + runGrows, st1)
                 else case performance_now ns (world st1) of (t, w') \<Rightarrow>
                   (maxSlots1, st1\<lparr>world := w', etaGrow := newEtaGrow t hackTime, pidGrow := []\<rparr>));
              (weakThreads, growThreads) = threadSplit maxSlots;
              st3 = st2\<lparr>maxMoney := getServerMaxMoney ns (world st2) target,
                        actualMoney := getServerMoneyAvailable ns (world st2) target\<rparr>;
              st4 = (if runGrows = 0 \<and> moneyDiff st3 > 0
                     then startGrows ns target botnet hackTime growThreads st3 else st3);
              st5 = (if runWeaken = 0
                     then startWeakens ns target botnet hackTime weakThreads st4 else st4)
          in Some st5)"

text \<open>A call of \<open>waitWithProgress\<close> from the routine: recorded, then run.\<close>

definition awaitProgress :: "'w NS \<Rightarrow> 'w opt_state \<Rightarrow> real \<Rightarrow> string \<Rightarrow> 'w opt_state option" where
  "awaitProgress ns st milliseconds label =
     (case waitWithProgress ns (world st) milliseconds of
        None \<Rightarrow> None
      | Some w' \<Rightarrow> Some (st\<lparr>world := w', events := events st @ [Waited milliseconds label]\<rparr>))"

text \<open>
  Lines 446-455: which wait the routine asks for, \<open>(milliseconds, label)\<close>, and the
  state after the two readings of the clock (line 447 and \<open>getWaitTime\<close>).
\<close>

definition nextWait :: "'w NS \<Rightarrow> 'w opt_state \<Rightarrow> (real \<times> string) \<times> 'w" where
  "nextWait ns st =
     (let nextEta0 = (if etaWeaken st < etaGrow st then (etaWeaken st, ''Weaken'')
                      else (etaGrow st, ''Grow''))
      in case performance_now ns (world st) of (t, w1) \<Rightarrow>
        let nextEta = (if fst nextEta0 < t
                       then (if etaWeaken st > etaGrow st then (etaWeaken st, ''Weaken'')
                             else (etaGrow st, ''Grow''))
                       else nextEta0)
        in case getWaitTime ns w1 (fst nextEta) of (waitTime, w2) \<Rightarrow>
          if waitTime > 0 then ((waitTime, ''Warte auf '' @ snd nextEta), w2)
          else ((3000, ''fehler: ETAs abgelaufen ...''), w2))"

text \<open>
  Lines 446-468: the wait, the refresh of the money figures (lines 458-460), the wait
  for the last weaken (lines 461-464), the refresh of the security figures.
\<close>

definition refreshMoney :: "'w NS \<Rightarrow> host \<Rightarrow> 'w opt_state \<Rightarrow> 'w opt_state" where
  "refreshMoney ns target st =
     st\<lparr>maxMoney := getServerMaxMoney ns (world st) target,
        actualMoney := getServerMoneyAvailable ns (world st) target,
        moneyDiff := getServerMaxMoney ns (world st) target
                     - getServerMoneyAvailable ns (world st) target\<rparr>"

definition refreshSecurity :: "'w NS \<Rightarrow> host \<Rightarrow> 'w opt_state \<Rightarrow> 'w opt_state" where
  "refreshSecurity ns target st =
     st\<lparr>minSec := getServerMinSecurityLevel ns (world st) target,
        actualSec := getServerSecurityLevel ns (world st) target,
        secDiff := getServerSecurityLevel ns (world st) target
                   - getServerMinSecurityLevel ns (world st) target\<rparr>"

definition waitLastWeaken :: "'w NS \<Rightarrow> 'w opt_state \<Rightarrow> 'w opt_state option" where
  "waitLastWeaken ns st =
     (if moneyDiff st = 0
      then (case performance_now ns (world st) of (t, w') \<Rightarrow>
              awaitProgress ns (st\<lparr>world := w'\<rparr>) (etaWeaken st - t) ''Warte auf letztes Weaken'')
      else Some st)"

definition waitStep :: "'w NS \<Rightarrow> host \<Rightarrow> 'w opt_state \<Rightarrow> 'w opt_state option" where
  "waitStep ns target st =
     (case nextWait ns st of ((milliseconds, label), w2) \<Rightarrow>
        (case awaitProgress ns (st\<lparr>world := w2\<rparr>) milliseconds label of
           None \<Rightarrow> None
         | Some st2 \<Rightarrow>
             (case waitLastWeaken ns (refreshMoney ns target st2) of
                None \<Rightarrow> None
              | Some st4 \<Rightarrow> Some (refreshSecurity ns target st4))))"

text \<open>
  The loop of lines 375-469. A pass is \<open>dispatchStep\<close>; with \<open>forceRun\<close> the loop is
  left right after it, otherwise \<open>waitStep\<close> follows and the condition is tested
  again. A run that never leaves the loop has the value \<open>None\<close>.
\<close>

partial_function (option) optimizeLoop ::
  "'w NS \<Rightarrow> host \<Rightarrow> bool \<Rightarrow> 'w opt_state \<Rightarrow> 'w opt_state option" where
  "optimizeLoop ns target forceRun st =
     (if actualSec st > minSec st \<or> actualMoney st < maxMoney st \<or> forceRun then
        (case dispatchStep ns target st of
           None \<Rightarrow> None
         | Some st1 \<Rightarrow>
             if forceRun then Some st1
             else (case waitStep ns target st1 of
                     None \<Rightarrow> None
                   | Some st2 \<Rightarrow> optimizeLoop ns target forceRun st2))
      else Some st)"

declare optimizeLoop.simps [code]

text \<open>Lines 471-478: the final wait for the later ETA.\<close>

definition drainStep :: "'w NS \<Rightarrow> bool \<Rightarrow> 'w opt_state \<Rightarrow> 'w opt_state option" where
  "drainStep ns forceRun st =
     (if \<not> forceRun then
        (case performance_now ns (world st) of (t, w') \<Rightarrow>
           let waitTime = max (etaWeaken st) (etaGrow st) - t in
           if waitTime > 0 then awaitProgress ns (st\<lparr>world := w'\<rparr>) waitTime ''Warte auf letztes ETA''
           else Some (st\<lparr>world := w'\<rparr>))
      else Some st)"

text \<open>Lines 348-364: the variables of the routine at the start.\<close>

definition initialState :: "'w NS \<Rightarrow> host \<Rightarrow> 'w \<Rightarrow> 'w opt_state" where
  "initialState ns target w =
     \<lparr>world = w, events = [],
      minSec = getServerMinSecurityLevel ns w target,
      actualSec = getServerSecurityLevel ns w target,
      maxMoney = getServerMaxMoney ns w target,
      actualMoney = getServerMoneyAvailable ns w target,
      secDiff = getServerSecurityLevel ns w target - getServerMinSecurityLevel ns w target,
      moneyDiff = getServerMaxMoney ns w target - getServerMoneyAvailable ns w target,
      pidWeaken = [], pidGrow = [], etaWeaken = 0, etaGrow = 0, growBatchNumber = 0\<rparr>"

text \<open>
  \<open>optimizeServer\<close>: \<open>None\<close> is a run that does not return, \<open>Some (Inl e)\<close> the
  exception \<open>e\<close>, \<open>Some (Inr st)\<close> the return, with the final state.
\<close>

definition optimizeServer ::
  "'w NS \<Rightarrow> 'w \<Rightarrow> host \<Rightarrow> bool \<Rightarrow> (js_error + 'w opt_state) option" where
  "optimizeServer ns w target forceRun =
     (if \<not> serverExists ns w target
      then Some (Inl (Error (''Server '' @ [CHR 0x27] @ target @ [CHR 0x27] @ '' existiert nicht'')))
      else case optimizeLoop ns target forceRun (initialState ns target w) of
             None \<Rightarrow> None
           | Some st \<Rightarrow>
               (case drainStep ns forceRun st of
                  None \<Rightarrow> None
                | Some st' \<Rightarrow> Some (Inr st')))"

text \<open>
  The hosts a pass calls \<open>executeOnBot\<close> for, in order, each with the free slots it
  had at that moment and the threads it was given (the decrease of the remaining
  threads). The pass is replayed host by host.
\<close>

fun passAssignments ::
  "'w NS \<Rightarrow> string \<Rightarrow> host \<Rightarrow> real \<Rightarrow> real \<Rightarrow> host list \<Rightarrow> int \<times> proc list \<times> 'w \<Rightarrow> (host \<times> int \<times> int) list" where
  "passAssignments ns scriptPath target duration eta [] st = []"
| "passAssignments ns scriptPath target duration eta (bot' # rest) st =
     (if fst st \<le> 0 then []
      else (bot', freeSlotsOf ns (snd (snd st)) bot',
            fst st - fst (executeOnBot ns bot' scriptPath target duration eta st))
           # passAssignments ns scriptPath target duration eta rest
               (executeOnBot ns bot' scriptPath target duration eta st))"

section \<open>The workers: bin.grow.js and bin.weaken.js\<close>

text \<open>
  A worker is started with \<open>ns.args = [target, operationTime, endTime]\<close>: a string
  and two numbers, the numbers absent (\<open>None\<close>) when the script is started with
  fewer arguments. It ends by throwing, by returning at once, or by one call of
  \<open>ns.grow\<close> or \<open>ns.weaken\<close>, with or without the option \<open>additionalMsec\<close>.
  \<open>now\<close> is the reading of \<open>Date.now()\<close>.
\<close>

datatype worker_call =
  Grow host "int option"
  | Weaken host "int option"

fun additionalMsec :: "worker_call \<Rightarrow> int option" where
  "additionalMsec (Grow target delay) = delay"
| "additionalMsec (Weaken target delay) = delay"

text \<open>\<open>Math.floor(Math.max(0, endTime - now - operationTime))\<close>.\<close>

definition workerDelay :: "real \<Rightarrow> real \<Rightarrow> real \<Rightarrow> int" where
  "workerDelay operationTime endTime now = \<lfloor>max 0 (endTime - now - operationTime)\<rfloor>"

text \<open>\<open>operationTime && endTime\<close>: both given and neither of them \<open>0\<close>.\<close>

fun timesGiven :: "real option \<Rightarrow> real option \<Rightarrow> bool" where
  "timesGiven (Some operationTime) (Some endTime) = (operationTime \<noteq> 0 \<and> endTime \<noteq> 0)"
| "timesGiven operationTime endTime = False"

text \<open>\<open>main\<close> of bin.grow.js.\<close>

definition growMain ::
  "host \<Rightarrow> real option \<Rightarrow> real option \<Rightarrow> real \<Rightarrow> js_error + worker_call option" where
  "growMain target operationTime endTime now =
     (if target = [] then Inl (Error ''Zielserver fehlt'')
      else if timesGiven operationTime endTime
        then Inr (Some (Grow target (Some (workerDelay (the operationTime) (the endTime) now))))
        else Inr (Some (Grow target None)))"

text \<open>
  \<open>main\<close> of bin.weaken.js. Among a string and two numbers, \<open>ns.args\<close> includes
  \<open>"--validation"\<close> exactly when the target is that string.
\<close>

definition weakenMain ::
  "host \<Rightarrow> real option \<Rightarrow> real option \<Rightarrow> real \<Rightarrow> js_error + worker_call option" where
  "weakenMain target operationTime endTime now =
     (if target = ''--validation'' then Inr None
      else if target = [] then Inl (Error ''Zielserver fehlt'')
      else if timesGiven operationTime endTime
        then Inr (Some (Weaken target (Some (workerDelay (the operationTime) (the endTime) now))))
        else Inr (Some (Weaken target None)))"

section \<open>lib.config.js: saveToStorage and loadFromStorage\<close>

text \<open>
  JavaScript values as far as the storage functions tell them apart. A number is
  finite or one of \<open>NaN\<close>, \<open>Infinity\<close>, \<open>-Infinity\<close>. A Set is the list of its
  elements and a Map the list of its entries, both in insertion order. A Date is its
  time value in milliseconds, \<open>None\<close> for the invalid date. Values are compared by
  structure.
\<close>

datatype number = Fin real | NaN | PosInfinity | NegInfinity

datatype jsval =
  Undefined
  | Null
  | Bool bool
  | Num number
  | Str string
  | Arr "jsval list"
  | Obj "(string \<times> jsval) list"
  | SetV "jsval list"
  | MapV "(jsval \<times> jsval) list"
  | DateV "int option"

text \<open>A JSON document, what \<open>JSON.stringify\<close> writes and \<open>JSON.parse\<close> reads.\<close>

datatype json =
  JNull
  | JBool bool
  | JNum real
  | JStr string
  | JArr "json list"
  | JObj "(string \<times> json) list"

text \<open>
  The two functions of the language's \<open>Date\<close> that the storage code relies on are
  not part of the repository and are parameters: \<open>toISOString\<close>, the text
  \<open>JSON.stringify\<close> writes for a valid date, and \<open>newDate\<close>, the time value of
  \<open>new Date(x)\<close>.
\<close>

record date_api =
  toISOString :: "int \<Rightarrow> string"
  newDate :: "jsval \<Rightarrow> int option"

text \<open>
  \<open>JSON.stringify\<close> on a value: \<open>None\<close> where it yields \<open>undefined\<close>. A number
  that is not finite becomes \<open>null\<close>, as does \<open>undefined\<close> inside an array; a
  property whose value is \<open>undefined\<close> is left out; a Set or a Map has no own
  enumerable property and becomes \<open>{}\<close>; a date becomes its ISO text, the invalid
  date \<open>null\<close>.
\<close>

fun toJson :: "date_api \<Rightarrow> jsval \<Rightarrow> json option" where
  "toJson api Undefined = None"
| "toJson api Null = Some JNull"
| "toJson api (Bool b) = Some (JBool b)"
| "toJson api (Num n) = Some (case n of Fin r \<Rightarrow> JNum r | _ \<Rightarrow> JNull)"
| "toJson api (Str s) = Some (JStr s)"
| "toJson api (Arr xs) =
     Some (JArr (map (\<lambda>x. case toJson api x of None \<Rightarrow> JNull | Some j \<Rightarrow> j) xs))"
| "toJson api (Obj ps) =
     Some (JObj (concat (map (\<lambda>p. case toJson api (snd p) of None \<Rightarrow> [] | Some j \<Rightarrow> [(fst p, j)]) ps)))"
| "toJson api (SetV xs) = Some (JObj [])"
| "toJson api (MapV es) = Some (JObj [])"
| "toJson api (DateV t) = Some (case t of Some ms \<Rightarrow> JStr (toISOString api ms) | None \<Rightarrow> JNull)"

text \<open>
  Setting a property: a name the object has keeps its place and takes the new value.
\<close>

definition setProperty :: "(string \<times> jsval) list \<Rightarrow> string \<times> jsval \<Rightarrow> (string \<times> jsval) list" where
  "setProperty acc p =
     (if fst p \<in> set (map fst acc)
      then map (\<lambda>q. if fst q = fst p then (fst q, snd p) else q) acc
      else acc @ [p])"

text \<open>
  \<open>JSON.parse\<close> on the text of a document; of a name written twice in an object
  the later value is kept.
\<close>

fun ofJson :: "json \<Rightarrow> jsval" where
  "ofJson JNull = Null"
| "ofJson (JBool b) = Bool b"
| "ofJson (JNum r) = Num (Fin r)"
| "ofJson (JStr s) = Str s"
| "ofJson (JArr xs) = Arr (map ofJson xs)"
| "ofJson (JObj ps) = Obj (foldl setProperty [] (map (\<lambda>p. (fst p, ofJson (snd p))) ps))"

text \<open>
  \<open>localStorage\<close> maps a key to a text. The texts the model holds are those of
  JSON documents, each identified with its document: \<open>JSON.parse\<close> reads back the
  document \<open>JSON.stringify\<close> wrote, and such a text is never empty.
\<close>

type_synonym storage = "string \<rightharpoonup> json"

text \<open>\<open>value.constructor.name\<close>.\<close>

fun constructorName :: "jsval \<Rightarrow> string" where
  "constructorName (Bool b) = ''Boolean''"
| "constructorName (Num n) = ''Number''"
| "constructorName (Str s) = ''String''"
| "constructorName (Arr xs) = ''Array''"
| "constructorName (Obj ps) = ''Object''"
| "constructorName (SetV xs) = ''Set''"
| "constructorName (MapV es) = ''Map''"
| "constructorName (DateV t) = ''Date''"
| "constructorName v = []"

text \<open>The \<open>data\<close> of the wrapper (lines 268-270).\<close>

fun wrapperData :: "jsval \<Rightarrow> jsval" where
  "wrapperData (MapV es) = Arr (map (\<lambda>e. Arr [fst e, snd e]) es)"
| "wrapperData (SetV xs) = Arr xs"
| "wrapperData v = v"

text \<open>
  \<open>saveToStorage\<close> (lines 258-273). The wrapper is an object, and of an object
  \<open>JSON.stringify\<close> always writes a text.
\<close>

definition saveToStorage :: "date_api \<Rightarrow> string \<Rightarrow> jsval \<Rightarrow> storage \<Rightarrow> storage" where
  "saveToStorage api key v store =
     (if v = Null \<or> v = Undefined then store(key := None)
      else
        let wrapper = Obj [(''type'', Str (constructorName v)), (''data'', wrapperData v)]
        in store(key \<mapsto> the (toJson api wrapper)))"

text \<open>
  Equality of Set elements and Map keys (SameValueZero): by value on primitives;
  an array or object, fresh from \<open>JSON.parse\<close>, equals no other.
\<close>

fun isPrimitive :: "jsval \<Rightarrow> bool" where
  "isPrimitive Undefined = True"
| "isPrimitive Null = True"
| "isPrimitive (Bool b) = True"
| "isPrimitive (Num n) = True"
| "isPrimitive (Str s) = True"
| "isPrimitive v = False"

definition sameValueZero :: "jsval \<Rightarrow> jsval \<Rightarrow> bool" where
  "sameValueZero a b = (isPrimitive a \<and> a = b)"

text \<open>\<open>new Set(xs)\<close>: a value already in the set is not added again.\<close>

definition setAdd :: "jsval list \<Rightarrow> jsval \<Rightarrow> jsval list" where
  "setAdd acc x = (if list_ex (\<lambda>y. sameValueZero y x) acc then acc else acc @ [x])"

text \<open>\<open>new Map(es)\<close>: a key already in the map keeps its place and takes the new value.\<close>

definition mapSet :: "(jsval \<times> jsval) list \<Rightarrow> jsval \<times> jsval \<Rightarrow> (jsval \<times> jsval) list" where
  "mapSet acc e =
     (if list_ex (\<lambda>f. sameValueZero (fst f) (fst e)) acc
      then map (\<lambda>f. if sameValueZero (fst f) (fst e) then (fst f, snd e) else f) acc
      else acc @ [e])"

text \<open>
  An entry handed to \<open>new Map\<close>: an array gives its first two elements
  (\<open>undefined\<close> where it is shorter), an object its properties \<open>0\<close> and \<open>1\<close>; a
  primitive is a TypeError (\<open>None\<close>).
\<close>

fun mapEntry :: "jsval \<Rightarrow> (jsval \<times> jsval) option" where
  "mapEntry (Arr []) = Some (Undefined, Undefined)"
| "mapEntry (Arr [k]) = Some (k, Undefined)"
| "mapEntry (Arr (k # v # rest)) = Some (k, v)"
| "mapEntry (Obj ps) =
     Some (case map_of ps ''0'' of None \<Rightarrow> Undefined | Some k \<Rightarrow> k,
           case map_of ps ''1'' of None \<Rightarrow> Undefined | Some v \<Rightarrow> v)"
| "mapEntry v = None"

text \<open>
  \<open>restoreFromStorage\<close> (lines 281-298) on what \<open>JSON.parse\<close> can hand it.
  \<open>TypeError\<close> is the exception of the constructor called: \<open>Array.from(null)\<close>,
  \<open>new Set\<close> of a number, boolean or object, \<open>new Map\<close> of these or of an entry
  that is no object. A string is iterated character by character. \<open>Array.from\<close> of
  an object reads its \<open>length\<close>: without that property the result is empty, with it
  the case is left out of the model (\<open>LeftOut\<close>).
\<close>

datatype restored = Restored jsval | TypeError | LeftOut

definition restoreFromStorage :: "date_api \<Rightarrow> jsval \<Rightarrow> jsval \<Rightarrow> restored" where
  "restoreFromStorage api d ty =
     (if ty = Str ''Number'' \<or> ty = Str ''String'' \<or> ty = Str ''Boolean'' then Restored d
      else if ty = Str ''Date'' then Restored (DateV (newDate api d))
      else if ty = Str ''Array'' then
        (case d of
           Arr xs \<Rightarrow> Restored (Arr xs)
         | Str s \<Rightarrow> Restored (Arr (map (\<lambda>c. Str [c]) s))
         | Bool b \<Rightarrow> Restored (Arr [])
         | Num n \<Rightarrow> Restored (Arr [])
         | Obj ps \<Rightarrow> (if ''length'' \<in> set (map fst ps) then LeftOut else Restored (Arr []))
         | _ \<Rightarrow> TypeError)
      else if ty = Str ''Set'' then
        (case d of
           Arr xs \<Rightarrow> Restored (SetV (foldl setAdd [] xs))
         | Str s \<Rightarrow> Restored (SetV (foldl setAdd [] (map (\<lambda>c. Str [c]) s)))
         | Null \<Rightarrow> Restored (SetV [])
         | Undefined \<Rightarrow> Restored (SetV [])
         | _ \<Rightarrow> TypeError)
      else if ty = Str ''Map'' then
        (case d of
           Arr es \<Rightarrow>
             (if list_all (\<lambda>e. mapEntry e \<noteq> None) es
              then Restored (MapV (foldl mapSet [] (map (\<lambda>e. the (mapEntry e)) es)))
              else TypeError)
         | Str s \<Rightarrow> (if s = [] then Restored (MapV []) else TypeError)
         | Null \<Rightarrow> Restored (MapV [])
         | Undefined \<Rightarrow> Restored (MapV [])
         | _ \<Rightarrow> TypeError)
      else Restored d)"

text \<open>
  What \<open>loadFromStorage\<close> (lines 236-251) returns: a value, or the raw text of the
  stored document (the \<open>catch\<close> branch, line 249, taken on a TypeError: that of
  \<open>null.hasOwnProperty\<close> or one of \<open>restoreFromStorage\<close>).
\<close>

datatype loaded = Value jsval | RawText json | NotModelled

definition loadFromStorage :: "date_api \<Rightarrow> string \<Rightarrow> storage \<Rightarrow> loaded" where
  "loadFromStorage api key store =
     (case store key of
        None \<Rightarrow> Value Null
      | Some doc \<Rightarrow>
          (case ofJson doc of
             Null \<Rightarrow> RawText doc
           | Obj ps \<Rightarrow>
               (if ''type'' \<in> set (map fst ps) \<and> ''data'' \<in> set (map fst ps)
                then (case restoreFromStorage api (the (map_of ps ''data'')) (the (map_of ps ''type'')) of
                        Restored v \<Rightarrow> Value v
                      | TypeError \<Rightarrow> RawText doc
                      | LeftOut \<Rightarrow> NotModelled)
                else Value (Obj ps))
           | wrapper \<Rightarrow> Value wrapper))"

text \<open>
  The values \<open>JSON.parse(JSON.stringify(v))\<close> gives back as they were: \<open>null\<close>,
  booleans, finite numbers, strings, and arrays and objects of such values.
\<close>

fun jsonData :: "jsval \<Rightarrow> bool" where
  "jsonData Null = True"
| "jsonData (Bool b) = True"
| "jsonData (Num n) = (case n of Fin r \<Rightarrow> True | _ \<Rightarrow> False)"
| "jsonData (Str s) = True"
| "jsonData (Arr xs) = list_all jsonData xs"
| "jsonData (Obj ps) = (distinct (map fst ps) \<and> list_all (\<lambda>p. jsonData (snd p)) ps)"
| "jsonData v = False"

text \<open>A list that can be the elements of a Set, or the keys of a Map: no primitive twice.\<close>

fun noRepeat :: "jsval list \<Rightarrow> bool" where
  "noRepeat [] = True"
| "noRepeat (x # xs) = (\<not> list_ex (\<lambda>y. sameValueZero x y) xs \<and> noRepeat xs)"

text \<open>
  The values of the seven constructors that the storage gives back unchanged: a
  finite number, a string, a boolean, an array, Set or Map whose contents are
  \<open>jsonData\<close>, and a valid date whose ISO text \<open>new Date\<close> reads back.
\<close>

fun storable :: "date_api \<Rightarrow> jsval \<Rightarrow> bool" where
  "storable api (Num n) = (case n of Fin r \<Rightarrow> True | _ \<Rightarrow> False)"
| "storable api (Str s) = True"
| "storable api (Bool b) = True"
| "storable api (Arr xs) = list_all jsonData xs"
| "storable api (SetV xs) = (list_all jsonData xs \<and> noRepeat xs)"
| "storable api (MapV es) =
     (list_all (\<lambda>e. jsonData (fst e) \<and> jsonData (snd e)) es \<and> noRepeat (map fst es))"
| "storable api (DateV t) =
     (case t of Some ms \<Rightarrow> newDate api (Str (toISOString api ms)) = Some ms | None \<Rightarrow> False)"
| "storable api v = False"

section \<open>RingBuffer\<close>

text \<open>
  A cell of the array \<open>buffer\<close>: an element of the type \<open>T\<close>, \<open>null\<close>, or
  \<open>undefined\<close> (what reading beside the array gives). The JSDoc types the array as
  \<open>Array<T | null>\<close> and the results as \<open>T | null\<close>: \<open>null\<close> is not an element.
  \<open>size\<close>, \<open>currentIndex\<close> and \<open>count\<close> are whole numbers.
\<close>

datatype 'a cell = CUndefined | CNull | Elem 'a

record 'a RingBuffer =
  rbSize :: int
  buffer :: "'a cell list"
  currentIndex :: int
  rbCount :: int

text \<open>The remainder \<open>a % b\<close> on whole numbers: its sign is that of \<open>a\<close>.\<close>

definition jsRem :: "int \<Rightarrow> int \<Rightarrow> int" where
  "jsRem a b = sgn a * (\<bar>a\<bar> mod \<bar>b\<bar>)"


definition arraySet :: "'a cell list \<Rightarrow> int \<Rightarrow> 'a cell \<Rightarrow> 'a cell list" where
  "arraySet xs i v =
     (if i < 0 then xs
      else if nat i < length xs then xs[nat i := v]
      else xs @ replicate (nat i - length xs) CUndefined @ [v])"






text \<open>\<open>add\<close> (lines 279-286): the element returned and the buffer after the call.\<close>

definition add :: "'a \<Rightarrow> 'a RingBuffer \<Rightarrow> 'a \<times> 'a RingBuffer" where
  "add element rb =
     (element,
      rb\<lparr>buffer := arraySet (buffer rb) (currentIndex rb) (Elem element),
         currentIndex := jsRem (currentIndex rb + 1) (rbSize rb),
         rbCount := (if rbCount rb < rbSize rb then rbCount rb + 1 else rbCount rb)\<rparr>)"









section \<open>A small game to run the routine on\<close>

text \<open>
  Three servers: \<open>home\<close> (64 GB, 60 GB in use), \<open>foodnstuff\<close> (16 GB) and \<open>n00dles\<close>
  (4 GB), all rooted; \<open>exec\<close> fails on the servers listed in \<open>simBroken\<close> and where
  the RAM does not suffice; the workers started are all done at the time \<open>simDone\<close>;
  the clock stands still but for \<open>sleep\<close>.
\<close>

record sim =
  simClock :: real
  simUsed :: "(host \<times> real) list"
  simLastPid :: nat
  simRunning :: "nat list"
  simBroken :: "host list"
  simDone :: real

definition simMaxRam :: "host \<Rightarrow> real" where
  "simMaxRam h =
     (if h = ''home'' then 64 else if h = ''foodnstuff'' then 16
      else if h = ''n00dles'' then 4 else 0)"

definition simUsedRam :: "sim \<Rightarrow> host \<Rightarrow> real" where
  "simUsedRam w h = (case map_of (simUsed w) h of None \<Rightarrow> 0 | Some r \<Rightarrow> r)"

definition simExec :: "sim \<Rightarrow> string \<Rightarrow> host \<Rightarrow> int \<Rightarrow> host \<Rightarrow> real \<Rightarrow> real \<Rightarrow> nat \<times> sim" where
  "simExec w scriptPath h n target duration eta =
     (if h \<in> set (simBroken w) \<or> n < 1 \<or> simMaxRam h - simUsedRam w h < 1.75 * of_int n
      then (0, w)
      else (Suc (simLastPid w),
            w\<lparr>simUsed := (h, simUsedRam w h + 1.75 * of_int n) # simUsed w,
              simLastPid := Suc (simLastPid w),
              simRunning := Suc (simLastPid w) # simRunning w\<rparr>))"

definition simNS :: "sim NS" where
  "simNS =
     \<lparr>serverExists = (\<lambda>w h. h \<in> set [''home'', ''foodnstuff'', ''n00dles'']),
      getServerMinSecurityLevel = (\<lambda>w h. 1),
      getServerSecurityLevel = (\<lambda>w h. 3),
      getServerMaxMoney = (\<lambda>w h. if h = ''home'' then 0 else 1000),
      getServerMoneyAvailable = (\<lambda>w h. if h = ''home'' then 0 else 500),
      scan = (\<lambda>w h. if h = ''home'' then [''foodnstuff'', ''n00dles'']
                     else if h = ''foodnstuff'' \<or> h = ''n00dles'' then [''home''] else []),
      hasRootAccess = (\<lambda>w h. True),
      getServerMaxRam = (\<lambda>w. simMaxRam),
      getServerUsedRam = simUsedRam,
      getHackTime = (\<lambda>w h. 1000),
      getRunningScript = (\<lambda>w p. p \<in> set (simRunning w) \<and> simClock w < simDone w),
      exec = simExec,
      sleep = (\<lambda>w ms. w\<lparr>simClock := simClock w + max ms 1\<rparr>),
      performance_now = (\<lambda>w. (simClock w, w))\<rparr>"

definition simStart :: sim where
  "simStart = \<lparr>simClock = 5000, simUsed = [(''home'', 60)], simLastPid = 0,
               simRunning = [], simBroken = [], simDone = 5450\<rparr>"

text \<open>The same game with \<open>home\<close> full.\<close>

definition simFull :: sim where
  "simFull = simStart\<lparr>simUsed := [(''home'', 64)]\<rparr>"


text \<open>
  The same game with a hack time of 100 ms, and in it the routine (normal mode) at
  its second wait step: one pass, the wait for the grow ETA, the second pass. The
  workers are still running then (\<open>simDone\<close> is 5450).
\<close>

definition quickNS :: "sim NS" where
  "quickNS = simNS\<lparr>getHackTime := (\<lambda>w h. 100)\<rparr>"

definition atSecondWait :: "sim opt_state option" where
  "atSecondWait =
     (case dispatchStep quickNS ''n00dles'' (initialState quickNS ''n00dles'' simStart) of
        None \<Rightarrow> None
      | Some st1 \<Rightarrow>
          (case waitStep quickNS ''n00dles'' st1 of
             None \<Rightarrow> None
           | Some st2 \<Rightarrow> dispatchStep quickNS ''n00dles'' st2))"

text \<open>A stand-in for the \<open>Date\<close> of the language that knows one date, the epoch.\<close>

definition demoDates :: date_api where
  "demoDates =
     \<lparr>toISOString = (\<lambda>ms. if ms = 0 then ''1970-01-01T00:00:00.000Z'' else []),
      newDate = (\<lambda>v. if v = Str ''1970-01-01T00:00:00.000Z'' \<or> v = Null then Some 0 else None)\<rparr>"


section \<open>The thread split\<close>

lemma ceiling_tenth: "\<lceil>real_of_int n / 10\<rceil> = (n + 9) div 10"
proof -
  have "\<lceil>real_of_int n / real_of_int 10\<rceil> = - ((- n) div 10)"
    by (rule ceiling_divide_eq_div)
  then show ?thesis by simp
qed

text \<open>
  Claim C1. For every positive \<open>totalSlots\<close> the split of lines 411-412 gives
  \<open>weakThreads = ceil(totalSlots / 10)\<close> and \<open>weakThreads + growThreads = totalSlots\<close>,
  that is \<open>growThreads = totalSlots - ceil(totalSlots / 10)\<close>. The ceiling is the
  least whole number \<open>w\<close> with \<open>totalSlots \<le> 10 * w\<close>; there is at least one weaken
  thread, and the grow threads are not negative.
\<close>

theorem threadSplit_one_to_nine:
  assumes "0 < totalSlots"
  shows "fst (threadSplit totalSlots) = \<lceil>real_of_int totalSlots / 10\<rceil>
       \<and> fst (threadSplit totalSlots) + snd (threadSplit totalSlots) = totalSlots
       \<and> snd (threadSplit totalSlots) = totalSlots - \<lceil>real_of_int totalSlots / 10\<rceil>
       \<and> totalSlots \<le> 10 * fst (threadSplit totalSlots)
       \<and> 10 * (fst (threadSplit totalSlots) - 1) < totalSlots
       \<and> 1 \<le> fst (threadSplit totalSlots)
       \<and> 0 \<le> snd (threadSplit totalSlots)"
proof -
  have w: "fst (threadSplit totalSlots) = (totalSlots + 9) div 10"
    and g: "snd (threadSplit totalSlots) = totalSlots - (totalSlots + 9) div 10"
    by (simp_all add: threadSplit_def Let_def ceiling_tenth)
  have "totalSlots \<le> 10 * ((totalSlots + 9) div 10)"
    and "10 * ((totalSlots + 9) div 10 - 1) < totalSlots"
    and "1 \<le> (totalSlots + 9) div 10"
    and "0 \<le> totalSlots - (totalSlots + 9) div 10"
    using assms by presburger+
  then show ?thesis
    by (simp add: w g ceiling_tenth)
qed

text \<open>The scenario of the specification: 100 slots are 10 weaken and 90 grow threads.\<close>

theorem threadSplit_one_to_nine_witness:
  "(0::int) < 100 \<and> threadSplit 100 = (10, 90)"
  using threadSplit_one_to_nine [of 100] by (simp add: prod_eq_iff)

section \<open>The allocation passes\<close>

lemma executeOnBot_step:
  assumes "0 < thr"
    and "executeOnBot ns b sp tg d e (thr, pids, w) = (r, pids', w')"
  shows "0 \<le> thr - r \<and> thr - r \<le> max 0 (freeSlotsOf ns w b)
       \<and> (freeSlotsOf ns w b \<le> 0 \<longrightarrow> r = thr \<and> pids' = pids \<and> w' = w)
       \<and> 0 \<le> r
       \<and> sum_list (map threads pids') = sum_list (map threads pids) + (thr - r)"
  using assms
  by (auto simp: executeOnBot_def Let_def split: if_splits prod.splits)

lemma pass_sum:
  "allocForward ns sp tg d e bots st = (r, pids', w') \<Longrightarrow>
   sum_list (map (\<lambda>(b, s, g). g) (passAssignments ns sp tg d e bots st)) + r = fst st
   \<and> sum_list (map threads pids') = sum_list (map threads (fst (snd st))) + (fst st - r)"
proof (induction bots arbitrary: st)
  case Nil
  then show ?case by simp
next
  case (Cons b bots)
  show ?case
  proof (cases "fst st \<le> 0")
    case True
    with Cons.prems show ?thesis by auto
  next
    case False
    obtain thr pids w where st: "st = (thr, pids, w)" by (cases st) auto
    obtain r1 p1 w1 where ex: "executeOnBot ns b sp tg d e (thr, pids, w) = (r1, p1, w1)"
      by (cases "executeOnBot ns b sp tg d e (thr, pids, w)") auto
    from False st have pos: "0 < thr" by simp
    from executeOnBot_step [OF pos ex]
    have s1: "sum_list (map threads p1) = sum_list (map threads pids) + (thr - r1)" by simp
    from Cons.prems False st ex
    have "allocForward ns sp tg d e bots (r1, p1, w1) = (r, pids', w')" by simp
    from Cons.IH [OF this]
    have ih: "sum_list (map (\<lambda>(b, s, g). g) (passAssignments ns sp tg d e bots (r1, p1, w1))) + r = r1"
      and ih2: "sum_list (map threads pids') = sum_list (map threads p1) + (r1 - r)" by simp_all
    from False st ex ih ih2 s1 show ?thesis by simp
  qed
qed

lemma pass_bounds:
  "(b, s, g) \<in> set (passAssignments ns sp tg d e bots st) \<Longrightarrow>
   0 \<le> g \<and> g \<le> max 0 s \<and> (s \<le> 0 \<longrightarrow> g = 0)"
proof (induction bots arbitrary: st)
  case Nil
  then show ?case by simp
next
  case (Cons b' bots)
  show ?case
  proof (cases "fst st \<le> 0")
    case True
    with Cons.prems show ?thesis by simp
  next
    case False
    obtain thr pids w where st: "st = (thr, pids, w)" by (cases st) auto
    obtain r1 p1 w1 where ex: "executeOnBot ns b' sp tg d e (thr, pids, w) = (r1, p1, w1)"
      by (cases "executeOnBot ns b' sp tg d e (thr, pids, w)") auto
    from False st have pos: "0 < thr" by simp
    note step = executeOnBot_step [OF pos ex]
    from Cons.prems False st ex
    consider "(b, s, g) = (b', freeSlotsOf ns w b', thr - r1)"
      | "(b, s, g) \<in> set (passAssignments ns sp tg d e bots (r1, p1, w1))"
      by auto
    then show ?thesis
    proof cases
      case 1
      with step show ?thesis by auto
    next
      case 2
      then show ?thesis by (rule Cons.IH)
    qed
  qed
qed

text \<open>The loop that counts down visits the list from its end.\<close>

lemma allocBackward_take:
  "k \<le> length botnet \<Longrightarrow>
   allocBackward ns sp tg d e botnet k st = allocForward ns sp tg d e (rev (take k botnet)) st"
proof (induction k arbitrary: st)
  case 0
  then show ?case by simp
next
  case (Suc k)
  then have "take (Suc k) botnet = take k botnet @ [botnet ! k]"
    by (simp add: take_Suc_conv_app_nth)
  with Suc show ?case by simp
qed

lemma allocBackward_rev:
  "allocBackward ns sp tg d e botnet (length botnet) st = allocForward ns sp tg d e (rev botnet) st"
  by (simp add: allocBackward_take)

text \<open>
  Claim C2. An allocation pass is \<open>executeOnBot\<close> on one host after the other: the
  grow pass over \<open>hosts\<close>, or the weaken pass over a list \<open>botnet\<close> whose reverse is
  \<open>hosts\<close>. Whatever thread count is requested and whatever the game answers, every
  host is given at most its free slots, a host with no free slot (zero or a negative
  number) is given nothing, the threads given and the residual returned add up to
  the threads requested, and the processes recorded hold exactly the threads given.
\<close>

theorem allocation_pass_conserves_threads:
  assumes "allocForward ns scriptPath target duration eta hosts (requested, pidArray, w)
             = (residual, pidArray', w')
           \<or> (hosts = rev botnet
               \<and> allocBackward ns scriptPath target duration eta botnet (length botnet)
                    (requested, pidArray, w) = (residual, pidArray', w'))"
  shows "(\<forall>(h, slots, given) \<in> set (passAssignments ns scriptPath target duration eta hosts
                                        (requested, pidArray, w)).
            0 \<le> given \<and> given \<le> max 0 slots \<and> (slots \<le> 0 \<longrightarrow> given = 0))
       \<and> sum_list (map (\<lambda>(h, slots, given). given)
             (passAssignments ns scriptPath target duration eta hosts (requested, pidArray, w)))
           + residual = requested
       \<and> sum_list (map threads pidArray') = sum_list (map threads pidArray) + (requested - residual)"
proof -
  from assms have fw: "allocForward ns scriptPath target duration eta hosts (requested, pidArray, w)
             = (residual, pidArray', w')"
    by (auto simp: allocBackward_rev)
  from pass_sum [OF fw] have
    "sum_list (map (\<lambda>(h, slots, given). given)
             (passAssignments ns scriptPath target duration eta hosts (requested, pidArray, w)))
           + residual = requested"
    and "sum_list (map threads pidArray') = sum_list (map threads pidArray) + (requested - residual)"
    by simp_all
  moreover have "\<forall>(h, slots, given) \<in> set (passAssignments ns scriptPath target duration eta hosts
                                        (requested, pidArray, w)).
            0 \<le> given \<and> given \<le> max 0 slots \<and> (slots \<le> 0 \<longrightarrow> given = 0)"
    using pass_bounds by fastforce
  ultimately show ?thesis by blast
qed

text \<open>
  Twelve threads over \<open>home\<close> (full), \<open>foodnstuff\<close> (9 slots) and \<open>n00dles\<close>
  (2 slots): nothing, 9 and 2 threads, one thread left over.
\<close>

theorem allocation_pass_conserves_threads_witness:
  "allocForward simNS ''src/bin.grow.js'' ''n00dles'' 3200 8240
       [''home'', ''foodnstuff'', ''n00dles''] (12, [], simFull)
     = (1, [\<lparr>pid = 1, threads = 9\<rparr>, \<lparr>pid = 2, threads = 2\<rparr>],
        \<lparr>simClock = 5000,
         simUsed = [(''n00dles'', 7 / 2), (''foodnstuff'', 63 / 4), (''home'', 64)],
         simLastPid = 2, simRunning = [2, 1], simBroken = [], simDone = 5450\<rparr>)
   \<and> passAssignments simNS ''src/bin.grow.js'' ''n00dles'' 3200 8240
       [''home'', ''foodnstuff'', ''n00dles''] (12, [], simFull)
     = [(''home'', 0, 0), (''foodnstuff'', 9, 9), (''n00dles'', 2, 2)]
   \<and> sum_list (map (\<lambda>(h, slots, given). given)
        (passAssignments simNS ''src/bin.grow.js'' ''n00dles'' 3200 8240
           [''home'', ''foodnstuff'', ''n00dles''] (12, [], simFull))) + 1 = (12::int)"
proof -
  have run: "allocForward simNS ''src/bin.grow.js'' ''n00dles'' 3200 8240
       [''home'', ''foodnstuff'', ''n00dles''] (12, [], simFull)
     = (1, [\<lparr>pid = 1, threads = 9\<rparr>, \<lparr>pid = 2, threads = 2\<rparr>],
        \<lparr>simClock = 5000,
         simUsed = [(''n00dles'', 7 / 2), (''foodnstuff'', 63 / 4), (''home'', 64)],
         simLastPid = 2, simRunning = [2, 1], simBroken = [], simDone = 5450\<rparr>)"
    by code_simp
  have given: "passAssignments simNS ''src/bin.grow.js'' ''n00dles'' 3200 8240
       [''home'', ''foodnstuff'', ''n00dles''] (12, [], simFull)
     = [(''home'', 0, 0), (''foodnstuff'', 9, 9), (''n00dles'', 2, 2)]"
    by code_simp
  from allocation_pass_conserves_threads [of simNS _ _ _ _ _ 12 "[]" simFull, OF disjI1, OF run]
  have "sum_list (map (\<lambda>(h, slots, given). given)
        (passAssignments simNS ''src/bin.grow.js'' ''n00dles'' 3200 8240
           [''home'', ''foodnstuff'', ''n00dles''] (12, [], simFull))) + 1 = (12::int)"
    by blast
  with run given show ?thesis by blast
qed

section \<open>The order of the passes\<close>

lemma passAssignments_prefix:
  "\<exists>k. map fst (passAssignments ns sp tg d e hosts st) = take k hosts"
proof (induction hosts arbitrary: st)
  case Nil
  then show ?case by simp
next
  case (Cons h hosts)
  show ?case
  proof (cases "fst st \<le> 0")
    case True
    then have "map fst (passAssignments ns sp tg d e (h # hosts) st) = take 0 (h # hosts)"
      by simp
    then show ?thesis by blast
  next
    case False
    from Cons.IH obtain k where
      "map fst (passAssignments ns sp tg d e hosts (executeOnBot ns h sp tg d e st)) = take k hosts"
      by blast
    with False have "map fst (passAssignments ns sp tg d e (h # hosts) st) = take (Suc k) (h # hosts)"
      by simp
    then show ?thesis by blast
  qed
qed

lemma botnetOf_sorted:
  "sorted_wrt (\<lambda>a b. getServerMaxRam ns w b \<le> getServerMaxRam ns w a) (botnetOf ns w servers)"
proof -
  have "sorted (map (\<lambda>server. - getServerMaxRam ns w server) (botnetOf ns w servers))"
    by (simp add: botnetOf_def)
  then show ?thesis
    by (simp add: sorted_map sorted_wrt_iff_nth_less)
qed

lemma botnetOf_set:
  "set (botnetOf ns w servers) = {s \<in> set servers. hasRootAccess ns w s}"
  by (auto simp: botnetOf_def)

text \<open>
  Claim C3, as amended. The list \<open>botnet\<close> holds the rooted servers in the order
  of descending maximum RAM (\<open>getServerMaxRam\<close>, the total capacity of a server,
  whatever part of it is in use). The grow pass visits it from the front and stops
  when no thread remains, so the hosts it visits are a front part of \<open>botnet\<close>;
  the weaken pass visits the same list from the back, a front part of the reversed
  list, which is in the order of ascending maximum RAM.
\<close>

theorem passes_follow_max_ram_order:
  "sorted_wrt (\<lambda>a b. getServerMaxRam ns w b \<le> getServerMaxRam ns w a) (botnetOf ns w servers)
   \<and> set (botnetOf ns w servers) = {s \<in> set servers. hasRootAccess ns w s}
   \<and> (\<exists>k. map fst (passAssignments ns growScript target growDuration growEta
                 (botnetOf ns w servers) growState) = take k (botnetOf ns w servers))
   \<and> allocBackward ns weakenScript target weakenDuration weakenEta
        (botnetOf ns w servers) (length (botnetOf ns w servers)) weakenState
      = allocForward ns weakenScript target weakenDuration weakenEta
          (rev (botnetOf ns w servers)) weakenState
   \<and> (\<exists>k. map fst (passAssignments ns weakenScript target weakenDuration weakenEta
                 (rev (botnetOf ns w servers)) weakenState) = take k (rev (botnetOf ns w servers)))
   \<and> sorted_wrt (\<lambda>a b. getServerMaxRam ns w a \<le> getServerMaxRam ns w b)
        (rev (botnetOf ns w servers))"
proof -
  have "sorted_wrt (\<lambda>a b. getServerMaxRam ns w a \<le> getServerMaxRam ns w b)
          (rev (botnetOf ns w servers))"
    using botnetOf_sorted [of ns w servers] by (simp add: sorted_wrt_rev)
  then show ?thesis
    by (intro conjI botnetOf_sorted botnetOf_set passAssignments_prefix allocBackward_rev)
qed

text \<open>
  In the small game the list is \<open>home\<close> (64 GB), \<open>foodnstuff\<close> (16 GB), \<open>n00dles\<close>
  (4 GB); the eleven grow threads go to \<open>home\<close> and \<open>foodnstuff\<close>.
\<close>

theorem passes_follow_max_ram_order_witness:
  "botnetOf simNS simStart [''home'', ''n00dles'', ''foodnstuff'']
     = [''home'', ''foodnstuff'', ''n00dles'']
   \<and> (\<exists>k. map fst (passAssignments simNS ''src/bin.grow.js'' ''n00dles'' 3200 8240
                 (botnetOf simNS simStart [''home'', ''n00dles'', ''foodnstuff''])
                 (11, [], simStart))
          = take k (botnetOf simNS simStart [''home'', ''n00dles'', ''foodnstuff'']))"
proof -
  have "botnetOf simNS simStart [''home'', ''n00dles'', ''foodnstuff'']
     = [''home'', ''foodnstuff'', ''n00dles'']"
    by code_simp
  with passes_follow_max_ram_order [of simNS simStart "[''home'', ''n00dles'', ''foodnstuff'']"
      "''src/bin.grow.js''" "''n00dles''" 3200 8240 "(11, [], simStart)"]
  show ?thesis by blast
qed

text \<open>
  The order is not that of free capacity. In the small game \<open>home\<close> has the most
  RAM and the least of it free (4 GB, 2 slots), \<open>foodnstuff\<close> has 16 GB free
  (9 slots): the grow pass of the routine visits \<open>home\<close> first.
\<close>

theorem grow_order_not_by_free_capacity:
  "crawler simNS simStart = Some [''home'', ''n00dles'', ''foodnstuff'']
   \<and> map fst (passAssignments simNS ''src/bin.grow.js'' ''n00dles'' 3200 8240
        (botnetOf simNS simStart [''home'', ''n00dles'', ''foodnstuff'']) (11, [], simStart))
      = [''home'', ''foodnstuff'']
   \<and> getServerMaxRam simNS simStart ''home'' - getServerUsedRam simNS simStart ''home'' = 4
   \<and> getServerMaxRam simNS simStart ''foodnstuff'' - getServerUsedRam simNS simStart ''foodnstuff'' = 16
   \<and> freeSlotsOf simNS simStart ''home'' = 2
   \<and> freeSlotsOf simNS simStart ''foodnstuff'' = 9
   \<and> \<not> sorted_wrt (\<lambda>a b. freeSlotsOf simNS simStart b \<le> freeSlotsOf simNS simStart a)
         (map fst (passAssignments simNS ''src/bin.grow.js'' ''n00dles'' 3200 8240
            (botnetOf simNS simStart [''home'', ''n00dles'', ''foodnstuff'']) (11, [], simStart)))"
  by code_simp

section \<open>The delay of a worker\<close>

lemma workerDelay_nonneg: "0 \<le> workerDelay operationTime endTime now"
  by (simp add: workerDelay_def)

lemma workerDelay_clamped:
  "endTime - now \<le> operationTime \<Longrightarrow> workerDelay operationTime endTime now = 0"
  by (simp add: workerDelay_def max_def)

text \<open>
  Claim C4. Whatever the target, the end time, the duration of the operation and the
  reading of the clock: where a grow or weaken worker computes a delay (both times
  given), the delay it hands to \<open>ns.grow\<close> or \<open>ns.weaken\<close> is
  \<open>floor(max(0, endTime - now - operationTime))\<close>, never negative, and exactly \<open>0\<close>
  when the duration alone reaches or exceeds the time left until the end time.
  (Without both times the worker passes no delay at all.)
\<close>

theorem worker_delay_not_negative:
  assumes "growMain target operationTime endTime now = Inr (Some call)
           \<or> weakenMain target operationTime endTime now = Inr (Some call)"
    and "additionalMsec call = Some delay"
  shows "0 \<le> delay
       \<and> delay = \<lfloor>max 0 (the endTime - now - the operationTime)\<rfloor>
       \<and> (the endTime - now \<le> the operationTime \<longrightarrow> delay = 0)"
proof -
  from assms have d: "delay = workerDelay (the operationTime) (the endTime) now"
    by (auto simp: growMain_def weakenMain_def split: if_splits)
  show ?thesis
    unfolding d using workerDelay_nonneg workerDelay_clamped
    by (simp add: workerDelay_def)
qed

text \<open>
  A grow worker started at 5100 for the end time 8240 with a duration of 3200 is late
  and starts at once; a weaken worker started at 5010 for 9060 with a duration of
  4000 waits 50 ms.
\<close>

theorem worker_delay_not_negative_witness:
  "growMain ''n00dles'' (Some 3200) (Some 8240) 5100 = Inr (Some (Grow ''n00dles'' (Some 0)))
   \<and> weakenMain ''n00dles'' (Some 4000) (Some 9060) 5010 = Inr (Some (Weaken ''n00dles'' (Some 50)))
   \<and> (0::int) \<le> 50"
proof -
  have g: "growMain ''n00dles'' (Some 3200) (Some 8240) 5100 = Inr (Some (Grow ''n00dles'' (Some 0)))"
    by (simp add: growMain_def workerDelay_def)
  have w: "weakenMain ''n00dles'' (Some 4000) (Some 9060) 5010 = Inr (Some (Weaken ''n00dles'' (Some 50)))"
    by (simp add: weakenMain_def workerDelay_def)
  from worker_delay_not_negative [of "''n00dles''" "Some 4000" "Some 9060" 5010
      "Weaken ''n00dles'' (Some 50)" 50] w
  have "(0::int) \<le> 50" by simp
  with g w show ?thesis by simp
qed

section \<open>The rounding of an ETA\<close>

lemma roundUp100_aligned: "roundUp100 (100 * of_int k) = 100 * of_int k"
  by (simp add: roundUp100_def)

lemma roundUp100_bounds: "x \<le> roundUp100 x \<and> roundUp100 x < x + 100"
proof -
  have a: "x / 100 \<le> of_int \<lceil>x / 100\<rceil>" by (rule le_of_int_ceiling)
  have b: "of_int \<lceil>x / 100\<rceil> < x / 100 + 1" by linarith
  show ?thesis
    unfolding roundUp100_def using a b by (intro conjI; linarith)
qed

text \<open>
  The buffer of 20 ms is added before the rounding: taken as a whole, line 397 (and
  406) moves a value that is already on a 100 ms boundary to the next boundary.
\<close>

lemma buffer_then_round_aligned:
  "roundUp100 (100 * of_int k + TIMING_BUFFER_MS) = 100 * of_int k + 100"
proof -
  have "\<lceil>(100 * real_of_int k + 20) / 100\<rceil> = k + 1"
    by (rule ceiling_unique) (simp_all add: field_simps)
  then show ?thesis
    by (simp add: roundUp100_def TIMING_BUFFER_MS_def)
qed

text \<open>
  Claim C5. The rounding of the ETAs, \<open>Math.ceil(x / 100) * 100\<close>, gives back a
  time that is already on a 100 ms boundary, and so is idempotent; it rounds up,
  never down, by less than 100 ms. The routine applies it to the clock reading plus
  the duration plus the margins: 60 ms for weaken (40 and the extra 20), 80 ms for
  grow.
\<close>

theorem eta_rounding_idempotent:
  "roundUp100 (100 * of_int k) = 100 * of_int k
   \<and> roundUp100 (roundUp100 x) = roundUp100 x
   \<and> x \<le> roundUp100 x \<and> roundUp100 x < x + 100
   \<and> newEtaWeaken now hackTime = roundUp100 (now + hackTime * 4 + 60)
   \<and> newEtaGrow now hackTime = roundUp100 (now + hackTime * 3.2 + 80)"
proof -
  have "roundUp100 (roundUp100 x) = roundUp100 x"
    using roundUp100_aligned [of "\<lceil>x / 100\<rceil>"] by (simp add: roundUp100_def mult.commute)
  moreover have "newEtaWeaken now hackTime = roundUp100 (now + hackTime * 4 + 60)"
    by (simp add: newEtaWeaken_def WEAKEN_TIME_MULTIPLIER_def TIMING_BUFFER_MS_def Let_def add.commute)
  moreover have "newEtaGrow now hackTime = roundUp100 (now + hackTime * 3.2 + 80)"
    by (simp add: newEtaGrow_def GROW_TIME_MULTIPLIER_def TIMING_BUFFER_MS_def Let_def add.commute)
  ultimately show ?thesis
    using roundUp100_aligned roundUp100_bounds by simp
qed

text \<open>
  The scenario of the specification with \<open>T = 5040\<close>: a duration of 1000 times 4,
  plus 60, is 9100, on a boundary, and the weaken ETA is 9100.
\<close>

theorem eta_rounding_idempotent_witness:
  "roundUp100 9100 = 9100 \<and> newEtaWeaken 5040 1000 = 9100 \<and> newEtaWeaken 5041 1000 = 9200"
proof -
  from eta_rounding_idempotent [of 91 0 5040 1000]
  have "roundUp100 9100 = 9100" and "newEtaWeaken 5040 1000 = 9100" by simp_all
  moreover have "newEtaWeaken 5041 1000 = 9200"
    by (simp add: newEtaWeaken_def WEAKEN_TIME_MULTIPLIER_def TIMING_BUFFER_MS_def roundUp100_def)
  ultimately show ?thesis by simp
qed

section \<open>The wait step\<close>

text \<open>
  What the wait step asks for when the clock does not move between its two readings
  (\<open>t\<close> both times): the earlier ETA if it lies ahead, the later one if the earlier
  is past and the later lies ahead, and else the 3000 ms of the fallback. An earlier
  ETA equal to \<open>t\<close> is neither: the test of line 447 is \<open><\<close>, that of line 451
  \<open>> 0\<close>.
\<close>

lemma nextWait_steady_clock:
  assumes "performance_now ns (world st) = (t, world st)"
  shows "fst (nextWait ns st) =
     (if t < min (etaWeaken st) (etaGrow st)
      then (min (etaWeaken st) (etaGrow st) - t,
            ''Warte auf '' @ (if etaWeaken st < etaGrow st then ''Weaken'' else ''Grow''))
      else if min (etaWeaken st) (etaGrow st) < t \<and> t < max (etaWeaken st) (etaGrow st)
      then (max (etaWeaken st) (etaGrow st) - t,
            ''Warte auf '' @ (if etaWeaken st > etaGrow st then ''Weaken'' else ''Grow''))
      else (3000, ''fehler: ETAs abgelaufen ...''))"
  using assms
  by (auto simp: nextWait_def getWaitTime_def Let_def min_def max_def)

text \<open>
  Claim C8, at the input where the code departs from it. In the game with a hack
  time of 100 ms the routine starts at 5000, sets the grow ETA to 5400 and the weaken
  ETA to 5500, and waits 400 ms for the grow ETA. At its second wait step the clock
  reads 5400, the grow workers are still running, and the weaken ETA is 100 ms
  ahead. The claim has the routine wait a positive time until the ETA it chose; the
  routine takes the grow ETA, finds it not past (line 447), computes a wait of 0 and
  falls back to 3000 ms under the label that says the ETAs have run out.
\<close>

theorem fallback_wait_at_the_eta:
  "map_option
     (\<lambda>st. (events st, fst (performance_now quickNS (world st)), etaGrow st, etaWeaken st,
            fst (nextWait quickNS st)))
     atSecondWait
   = Some ([Printed ''grows'' 1 11 0 (2 / 5) 2 500, Printed ''weaken'' 1 2 0 (1 / 2) 2 500,
            Waited 400 ''Warte auf Grow''],
           5400, 5400, 5500, (3000, ''fehler: ETAs abgelaufen ...''))"
  by code_simp

section \<open>The loop with forceRun\<close>

lemma startGrows_events:
  "\<exists>p. events (startGrows ns target botnet hackTime growThreads st) = events st @ [p]
       \<and> (\<forall>ms label. p \<noteq> Waited ms label)"
  by (simp add: startGrows_def split: prod.splits)

lemma startWeakens_events:
  "\<exists>p. events (startWeakens ns target botnet hackTime weakThreads st) = events st @ [p]
       \<and> (\<forall>ms label. p \<noteq> Waited ms label)"
  by (simp add: startWeakens_def split: prod.splits)

lemma startGrows_no_wait:
  "Waited ms label \<in> set (events (startGrows ns target botnet hackTime growThreads st))
   \<Longrightarrow> Waited ms label \<in> set (events st)"
  using startGrows_events [of ns target botnet hackTime growThreads st] by auto

lemma startWeakens_no_wait:
  "Waited ms label \<in> set (events (startWeakens ns target botnet hackTime weakThreads st))
   \<Longrightarrow> Waited ms label \<in> set (events st)"
  using startWeakens_events [of ns target botnet hackTime weakThreads st] by auto

lemma dispatchStep_no_wait:
  assumes "dispatchStep ns target st = Some st'"
    and "Waited ms label \<in> set (events st')"
  shows "Waited ms label \<in> set (events st)"
  using assms
  by (auto simp: dispatchStep_def Let_def
      split: option.splits if_splits prod.splits
      dest!: startGrows_no_wait startWeakens_no_wait)

text \<open>With \<open>forceRun\<close> the loop is one pass: the condition holds, and line 439 leaves it.\<close>

lemma optimizeLoop_forceRun:
  "optimizeLoop ns target True st = dispatchStep ns target st"
  by (subst optimizeLoop.simps) (simp split: option.splits)

lemma dispatchStep_returns:
  "crawler ns (world st) = Some servers \<Longrightarrow> \<exists>st'. dispatchStep ns target st = Some st'"
  by (simp add: dispatchStep_def Let_def split: prod.splits)

lemma drainStep_forceRun: "drainStep ns True st = Some st"
  by (simp add: drainStep_def)

text \<open>A pass does not depend on what \<open>sleep\<close> does: it never calls it.\<close>

lemma executeOnBot_sleep:
  "executeOnBot (ns\<lparr>sleep := f\<rparr>) b sp tg d e st = executeOnBot ns b sp tg d e st"
  by (simp add: executeOnBot_def freeSlotsOf_def Let_def
      cong del: prod.case_cong_weak if_weak_cong)

lemma allocForward_sleep:
  "allocForward (ns\<lparr>sleep := f\<rparr>) sp tg d e hosts st = allocForward ns sp tg d e hosts st"
  by (induction hosts arbitrary: st) (simp_all add: executeOnBot_sleep)

lemma allocBackward_sleep:
  "allocBackward (ns\<lparr>sleep := f\<rparr>) sp tg d e hosts k st = allocBackward ns sp tg d e hosts k st"
  by (induction k arbitrary: st) (simp_all add: executeOnBot_sleep)

lemma dispatchStep_sleep:
  "dispatchStep (ns\<lparr>sleep := f\<rparr>) target st = dispatchStep ns target st"
  by (simp add: dispatchStep_def crawler_def botnetOf_def countFreeSlots_def freeSlotsOf_def
      runningThreads_def startGrows_def startWeakens_def getWaitTime_def
      allocForward_sleep allocBackward_sleep Let_def
      cong del: prod.case_cong_weak option.case_cong_weak if_weak_cong)

lemma optimizeServer_forceRun_sleep:
  "optimizeServer (ns\<lparr>sleep := f\<rparr>) w target True = optimizeServer ns w target True"
  by (simp add: optimizeServer_def optimizeLoop_forceRun dispatchStep_sleep drainStep_forceRun
      initialState_def split: option.splits)

text \<open>
  Claim C6. For a target that exists (and a network the crawler comes back from),
  \<open>optimizeServer\<close> with \<open>forceRun = true\<close> returns, and what it returns is the
  state after exactly one pass of the loop body on the initial state: the loop is
  that one pass, and the final wait is skipped. No call of \<open>waitWithProgress\<close> is
  recorded, and the result is the same whatever \<open>sleep\<close> would do.
\<close>

theorem forceRun_one_pass_no_wait:
  assumes "serverExists ns w target"
    and "crawler ns w = Some servers"
  shows "\<exists>st. dispatchStep ns target (initialState ns target w) = Some st
            \<and> optimizeLoop ns target True (initialState ns target w) = Some st
            \<and> optimizeServer ns w target True = Some (Inr st)
            \<and> (\<forall>ms label. Waited ms label \<notin> set (events st))
            \<and> (\<forall>f. optimizeServer (ns\<lparr>sleep := f\<rparr>) w target True = Some (Inr st))"
proof -
  have "world (initialState ns target w) = w"
    by (simp add: initialState_def)
  with assms(2) dispatchStep_returns [of ns "initialState ns target w" servers target]
  obtain st where st: "dispatchStep ns target (initialState ns target w) = Some st"
    by auto
  have "events (initialState ns target w) = []"
    by (simp add: initialState_def)
  with dispatchStep_no_wait [OF st] have "\<forall>ms label. Waited ms label \<notin> set (events st)"
    by fastforce
  moreover have "optimizeServer ns w target True = Some (Inr st)"
    using assms(1) st by (simp add: optimizeServer_def optimizeLoop_forceRun drainStep_forceRun)
  ultimately show ?thesis
    using st by (simp add: optimizeLoop_forceRun optimizeServer_forceRun_sleep)
qed

text \<open>
  In the small game the one pass starts the grows on \<open>home\<close> and \<open>foodnstuff\<close> and
  the weakens on \<open>n00dles\<close>, prints two lines and returns.
\<close>

theorem forceRun_one_pass_no_wait_witness:
  "serverExists simNS simStart ''n00dles''
   \<and> crawler simNS simStart = Some [''home'', ''n00dles'', ''foodnstuff'']
   \<and> (\<exists>st. optimizeServer simNS simStart ''n00dles'' True = Some (Inr st)
          \<and> pidGrow st = [\<lparr>pid = 1, threads = 2\<rparr>, \<lparr>pid = 2, threads = 9\<rparr>]
          \<and> pidWeaken st = [\<lparr>pid = 3, threads = 2\<rparr>]
          \<and> (\<forall>ms label. Waited ms label \<notin> set (events st)))"
proof -
  have ex: "serverExists simNS simStart ''n00dles''"
    by (simp add: simNS_def)
  have cr: "crawler simNS simStart = Some [''home'', ''n00dles'', ''foodnstuff'']"
    by code_simp
  have pg: "map_option pidGrow (dispatchStep simNS ''n00dles'' (initialState simNS ''n00dles'' simStart))
            = Some [\<lparr>pid = 1, threads = 2\<rparr>, \<lparr>pid = 2, threads = 9\<rparr>]"
    by code_simp
  have pw: "map_option pidWeaken (dispatchStep simNS ''n00dles'' (initialState simNS ''n00dles'' simStart))
            = Some [\<lparr>pid = 3, threads = 2\<rparr>]"
    by code_simp
  from forceRun_one_pass_no_wait [OF ex cr] obtain st where
    "dispatchStep simNS ''n00dles'' (initialState simNS ''n00dles'' simStart) = Some st"
    "optimizeServer simNS simStart ''n00dles'' True = Some (Inr st)"
    "\<forall>ms label. Waited ms label \<notin> set (events st)"
    by blast
  with pg pw ex cr show ?thesis by auto
qed

section \<open>Errors\<close>




section \<open>The storage round trip\<close>

lemma setProperty_fresh:
  "distinct (map fst (acc @ ps)) \<Longrightarrow> foldl setProperty acc ps = acc @ ps"
proof (induction ps arbitrary: acc)
  case Nil
  then show ?case by simp
next
  case (Cons p ps)
  then have "fst p \<notin> set (map fst acc)" by auto
  then have "setProperty acc p = acc @ [p]" by (simp add: setProperty_def)
  with Cons.IH [of "acc @ [p]"] Cons.prems show ?case by simp
qed

lemma toJson_jsonData:
  "jsonData v \<Longrightarrow> \<exists>j. toJson api v = Some j \<and> ofJson j = v"
proof (induction v)
  case (Arr xs)
  then have "\<forall>x \<in> set xs. \<exists>j. toJson api x = Some j \<and> ofJson j = x"
    by (auto simp: list_all_iff)
  then have "map ofJson (map (\<lambda>x. case toJson api x of None \<Rightarrow> JNull | Some j \<Rightarrow> j) xs) = xs"
    by (induction xs) auto
  then show ?case by simp
next
  case (Obj ps)
  then have el: "\<forall>p \<in> set ps. \<exists>j. toJson api (snd p) = Some j \<and> ofJson j = snd p"
    by (fastforce simp: list_all_iff snds.simps)
  then have "map (\<lambda>p. (fst p, ofJson (snd p)))
          (concat (map (\<lambda>p. case toJson api (snd p) of None \<Rightarrow> [] | Some j \<Rightarrow> [(fst p, j)]) ps)) = ps"
    by (induction ps) auto
  moreover from Obj.prems have "distinct (map fst ps)" by simp
  ultimately show ?case
    using setProperty_fresh [of "[]" ps] by simp
qed (auto split: number.splits)

lemma toJson_jsonData_list:
  "list_all jsonData xs \<Longrightarrow>
   map ofJson (map (\<lambda>x. case toJson api x of None \<Rightarrow> JNull | Some j \<Rightarrow> j) xs) = xs"
proof (induction xs)
  case Nil
  then show ?case by simp
next
  case (Cons x xs)
  with toJson_jsonData [of x api] show ?case by auto
qed

lemma setAdd_fresh:
  "noRepeat (acc @ xs) \<Longrightarrow> foldl setAdd acc xs = acc @ xs"
proof (induction xs arbitrary: acc)
  case Nil
  then show ?case by simp
next
  case (Cons x xs)
  have nr: "noRepeat (acc @ x # xs) \<Longrightarrow> \<not> list_ex (\<lambda>y. sameValueZero y x) acc \<and> noRepeat ((acc @ [x]) @ xs)"
    for acc
    by (induction acc) (auto simp: list_ex_iff sameValueZero_def)
  from nr [OF Cons.prems] have "setAdd acc x = acc @ [x]" and "noRepeat ((acc @ [x]) @ xs)"
    by (simp_all add: setAdd_def)
  with Cons.IH [of "acc @ [x]"] show ?case by simp
qed

lemma mapSet_fresh:
  "noRepeat (map fst (acc @ es)) \<Longrightarrow> foldl mapSet acc es = acc @ es"
proof (induction es arbitrary: acc)
  case Nil
  then show ?case by simp
next
  case (Cons e es)
  have nr: "noRepeat (map fst (acc @ e # es)) \<Longrightarrow>
      \<not> list_ex (\<lambda>f. sameValueZero (fst f) (fst e)) acc \<and> noRepeat (map fst ((acc @ [e]) @ es))"
    for acc
    by (induction acc) (auto simp: list_ex_iff sameValueZero_def)
  from nr [OF Cons.prems] have "mapSet acc e = acc @ [e]" and "noRepeat (map fst ((acc @ [e]) @ es))"
    by (simp_all add: mapSet_def)
  with Cons.IH [of "acc @ [e]"] show ?case by simp
qed

lemma load_wrapped:
  assumes "v \<noteq> Null" "v \<noteq> Undefined"
    and "toJson api (wrapperData v) = Some jd"
  shows "loadFromStorage api key (saveToStorage api key v store)
       = (case restoreFromStorage api (ofJson jd) (Str (constructorName v)) of
            Restored u \<Rightarrow> Value u
          | TypeError \<Rightarrow> RawText (JObj [(''type'', JStr (constructorName v)), (''data'', jd)])
          | LeftOut \<Rightarrow> NotModelled)"
  using assms
  by (simp add: saveToStorage_def loadFromStorage_def Let_def setProperty_def)

lemma roundtrip_array:
  assumes "list_all jsonData xs"
  shows "loadFromStorage api key (saveToStorage api key (Arr xs) store) = Value (Arr xs)"
proof -
  have "toJson api (wrapperData (Arr xs))
        = Some (JArr (map (\<lambda>x. case toJson api x of None \<Rightarrow> JNull | Some j \<Rightarrow> j) xs))"
    by simp
  from load_wrapped [OF _ _ this, of key store] show ?thesis
    using toJson_jsonData_list [OF assms, of api]
    by (simp add: restoreFromStorage_def)
qed

lemma roundtrip_set:
  assumes "list_all jsonData xs" "noRepeat xs"
  shows "loadFromStorage api key (saveToStorage api key (SetV xs) store) = Value (SetV xs)"
proof -
  have "toJson api (wrapperData (SetV xs))
        = Some (JArr (map (\<lambda>x. case toJson api x of None \<Rightarrow> JNull | Some j \<Rightarrow> j) xs))"
    by simp
  from load_wrapped [OF _ _ this, of key store] show ?thesis
    using toJson_jsonData_list [OF assms(1), of api] setAdd_fresh [of "[]" xs] assms(2)
    by (simp add: restoreFromStorage_def)
qed

lemma entries_back:
  "list_all (\<lambda>e. jsonData (fst e) \<and> jsonData (snd e)) es \<Longrightarrow>
   map ofJson (map (\<lambda>x. case toJson api x of None \<Rightarrow> JNull | Some j \<Rightarrow> j)
     (map (\<lambda>e. Arr [fst e, snd e]) es)) = map (\<lambda>e. Arr [fst e, snd e]) es"
  by (rule toJson_jsonData_list) (simp add: list_all_iff)

lemma roundtrip_map:
  assumes "list_all (\<lambda>e. jsonData (fst e) \<and> jsonData (snd e)) es" "noRepeat (map fst es)"
  shows "loadFromStorage api key (saveToStorage api key (MapV es) store) = Value (MapV es)"
proof -
  let ?d = "map (\<lambda>e. Arr [fst e, snd e]) es"
  let ?jd = "JArr (map (\<lambda>x. case toJson api x of None \<Rightarrow> JNull | Some j \<Rightarrow> j) ?d)"
  have jd: "toJson api (wrapperData (MapV es)) = Some ?jd"
    by simp
  have parsed: "ofJson ?jd = Arr ?d"
    by (simp only: ofJson.simps entries_back [OF assms(1)])
  have ent: "list_all (\<lambda>e. mapEntry e \<noteq> None) ?d"
    by (simp add: list_all_iff)
  have "map (\<lambda>e. the (mapEntry e)) ?d = es"
    by (induction es) simp_all
  then have "restoreFromStorage api (Arr ?d) (Str ''Map'') = Restored (MapV es)"
    using mapSet_fresh [of "[]" es] assms(2) ent
    by (simp add: restoreFromStorage_def)
  then have "restoreFromStorage api (ofJson ?jd) (Str (constructorName (MapV es))) = Restored (MapV es)"
    by (simp only: parsed constructorName.simps)
  with load_wrapped [OF _ _ jd, of key store] show ?thesis
    by (simp only: restored.case jsval.distinct not_False_eq_True)
qed

text \<open>
  Claim C9, as amended. For every key: a value of one of the seven constructors
  comes back from \<open>loadFromStorage\<close> as it went into \<open>saveToStorage\<close> when it is a
  finite number, a string, a boolean, a valid date, or an array, Set or Map whose
  contents are JSON data (\<open>null\<close>, booleans, finite numbers, strings, arrays and
  plain objects of these); the Set and the Map come back with the same entries in
  the same order, the date with the same time. For \<open>null\<close> and \<open>undefined\<close> the key
  is removed and \<open>loadFromStorage\<close> returns \<open>null\<close>.
\<close>

theorem storage_roundtrip_json_values:
  "(storable api v \<longrightarrow> loadFromStorage api key (saveToStorage api key v store) = Value v)
   \<and> (v = Null \<or> v = Undefined \<longrightarrow>
        saveToStorage api key v store key = None
        \<and> loadFromStorage api key (saveToStorage api key v store) = Value Null)"
proof -
  have "loadFromStorage api key (saveToStorage api key v store) = Value v" if "storable api v"
  proof (cases v)
    case (Bool b)
    from load_wrapped [of v api "JBool b" key store] Bool show ?thesis
      by (simp add: restoreFromStorage_def)
  next
    case (Num n)
    with that obtain r where "n = Fin r" by (cases n) simp_all
    with load_wrapped [of v api "JNum r" key store] Num show ?thesis
      by (simp add: restoreFromStorage_def)
  next
    case (Str s)
    from load_wrapped [of v api "JStr s" key store] Str show ?thesis
      by (simp add: restoreFromStorage_def)
  next
    case (Arr xs)
    with that roundtrip_array show ?thesis by simp
  next
    case (SetV xs)
    with that roundtrip_set show ?thesis by simp
  next
    case (MapV es)
    with that roundtrip_map show ?thesis by simp
  next
    case (DateV t)
    with that obtain ms where "t = Some ms" "newDate api (Str (toISOString api ms)) = Some ms"
      by (cases t) simp_all
    with load_wrapped [of v api "JStr (toISOString api ms)" key store] DateV show ?thesis
      by (simp add: restoreFromStorage_def)
  qed (use that in simp_all)
  moreover have "saveToStorage api key v store key = None
        \<and> loadFromStorage api key (saveToStorage api key v store) = Value Null"
    if "v = Null \<or> v = Undefined"
    using that by (auto simp: saveToStorage_def loadFromStorage_def)
  ultimately show ?thesis by blast
qed

text \<open>
  The function map of RunInfo (a Map from a name to an object of two numbers), the
  epoch as a date, and \<open>null\<close>.
\<close>

theorem storage_roundtrip_json_values_witness:
  "storable demoDates (MapV [(Str ''spider'', Obj [(''lastRun'', Num (Fin 5)), (''interval'', Num (Fin 100))])])
   \<and> loadFromStorage demoDates ''egoBB_runInfo''
        (saveToStorage demoDates ''egoBB_runInfo''
           (MapV [(Str ''spider'', Obj [(''lastRun'', Num (Fin 5)), (''interval'', Num (Fin 100))])])
           Map.empty)
      = Value (MapV [(Str ''spider'', Obj [(''lastRun'', Num (Fin 5)), (''interval'', Num (Fin 100))])])
   \<and> storable demoDates (DateV (Some 0))
   \<and> loadFromStorage demoDates ''k'' (saveToStorage demoDates ''k'' (DateV (Some 0)) Map.empty)
      = Value (DateV (Some 0))
   \<and> loadFromStorage demoDates ''k''
        (saveToStorage demoDates ''k'' Null (saveToStorage demoDates ''k'' (Bool True) Map.empty))
      = Value Null"
proof -
  have m: "storable demoDates
      (MapV [(Str ''spider'', Obj [(''lastRun'', Num (Fin 5)), (''interval'', Num (Fin 100))])])"
    by (simp add: sameValueZero_def)
  have d: "storable demoDates (DateV (Some 0))"
    by (simp add: demoDates_def)
  from m d
    storage_roundtrip_json_values [of demoDates
      "MapV [(Str ''spider'', Obj [(''lastRun'', Num (Fin 5)), (''interval'', Num (Fin 100))])]"
      "''egoBB_runInfo''" Map.empty]
    storage_roundtrip_json_values [of demoDates "DateV (Some 0)" "''k''" Map.empty]
    storage_roundtrip_json_values [of demoDates Null "''k''"
      "saveToStorage demoDates ''k'' (Bool True) Map.empty"]
  show ?thesis by blast
qed

text \<open>
  \<open>NaN\<close> has the constructor Number, and \<open>JSON.stringify\<close> writes \<open>null\<close> for it:
  what comes back is \<open>null\<close>. An \<open>undefined\<close> in an array comes back as \<open>null\<close>
  too, and a Set inside an array as an empty object.
\<close>

theorem nan_not_restored:
  "constructorName (Num NaN) = ''Number''
   \<and> loadFromStorage demoDates ''k'' (saveToStorage demoDates ''k'' (Num NaN) Map.empty) = Value Null
   \<and> loadFromStorage demoDates ''k'' (saveToStorage demoDates ''k'' (Num NaN) Map.empty)
       \<noteq> Value (Num NaN)
   \<and> loadFromStorage demoDates ''k''
        (saveToStorage demoDates ''k'' (Arr [Undefined, SetV [Num (Fin 1)]]) Map.empty)
       = Value (Arr [Null, Obj []])"
  by (simp add: saveToStorage_def loadFromStorage_def restoreFromStorage_def setProperty_def)

section \<open>The ring buffer\<close>
















end
